theory Spec2Isabelle
  imports Main "HOL-Library.Sublist"
begin

section \<open>The prompt generator \<^verbatim>\<open>generate_prompts.py\<close>\<close>

text \<open>
  The script holds a literal list \<^verbatim>\<open>prompts\<close> of dictionaries, a function
  \<^verbatim>\<open>generate_prompt(p)\<close> that renders one dictionary into a Markdown document, and a
  top-level loop that writes one file per dictionary and prints one line per file.

  Text is modelled as \<^typ>\<open>string\<close>, the UTF-8 bytes of the Python string (the files are
  opened with \<^verbatim>\<open>encoding='utf-8'\<close>). Every literal of the script is ASCII except four
  characters of the attribution line, which are written out as their nine UTF-8 bytes.
\<close>

subsection \<open>Python string helpers\<close>

definition digit_char :: "nat \<Rightarrow> char" where
  "digit_char d = ''0123456789'' ! d"

text \<open>Decimal digits of a natural number, most significant first (\<^verbatim>\<open>str(n)\<close>).\<close>

fun dec :: "nat \<Rightarrow> string" where
  "dec n = (if n < 10 then [digit_char n] else dec (n div 10) @ [digit_char (n mod 10)])"

definition zfill :: "nat \<Rightarrow> string \<Rightarrow> string" where
  "zfill w s = replicate (w - length s) CHR ''0'' @ s"

text \<open>
  The format specification \<^verbatim>\<open>{n:0wd}\<close>: sign-aware zero padding to a minimum width
  \<open>w\<close>; the sign counts towards the width and longer numbers are not truncated.
\<close>

definition fmt_d :: "nat \<Rightarrow> int \<Rightarrow> string" where
  "fmt_d w n =
     (if n < 0 then CHR ''-'' # zfill (w - 1) (dec (nat (- n))) else zfill w (dec (nat n)))"

text \<open>\<^verbatim>\<open>sep.join(xs)\<close>.\<close>

fun join :: "string \<Rightarrow> string list \<Rightarrow> string" where
  "join sep [] = []"
| "join sep [x] = x"
| "join sep (x # y # ys) = x @ sep @ join sep (y # ys)"


definition lower_char :: "char \<Rightarrow> char" where
  "lower_char c =
     (case map_of (zip ''ABCDEFGHIJKLMNOPQRSTUVWXYZ'' ''abcdefghijklmnopqrstuvwxyz'') c of
        None \<Rightarrow> c
      | Some l \<Rightarrow> l)"

definition lower :: "string \<Rightarrow> string" where
  "lower s = map lower_char s"

subsection \<open>Records\<close>

text \<open>
  One entry of \<^verbatim>\<open>prompts\<close> is a dictionary; a key that is absent is \<open>None\<close>. The keys
  \<^verbatim>\<open>num\<close>, \<^verbatim>\<open>title\<close>, \<^verbatim>\<open>objective\<close> are read with \<^verbatim>\<open>p[...]\<close> (and \<^verbatim>\<open>scope\<close> too, in
  the loop), the others with \<^verbatim>\<open>p.get(..., default)\<close>.
\<close>

record prompt =
  num :: "int option"
  title :: "string option"
  objective :: "string option"
  depends :: "string list option"
  files :: "string list option"
  commands :: "string option"
  scope :: "string option"
  decisions :: "string list option"
  edge_cases :: "string list option"
  code_refs :: "string list option"

text \<open>
  The exceptions that end the script: \<^verbatim>\<open>KeyError\<close> with the missing key, and \<^verbatim>\<open>OSError\<close>
  with the path that \<^verbatim>\<open>open\<close> failed on. \<^verbatim>\<open>OSError\<close> stands for the class: whether
  Python raises \<^verbatim>\<open>FileNotFoundError\<close>, \<^verbatim>\<open>NotADirectoryError\<close>, \<^verbatim>\<open>IsADirectoryError\<close>,
  \<^verbatim>\<open>PermissionError\<close> or \<^verbatim>\<open>OSError\<close> itself depends on the platform and on what is at
  the path, and all of them are \<^verbatim>\<open>OSError\<close>s.
\<close>

datatype py_error =
    KeyError string
  | OSError string

text \<open>\<^verbatim>\<open>p.get(key, default)\<close>.\<close>

definition get_or :: "'a option \<Rightarrow> 'a \<Rightarrow> 'a" where
  "get_or v d = (case v of None \<Rightarrow> d | Some x \<Rightarrow> x)"

subsection \<open>The sections of a document\<close>

definition dep_bullet :: "string \<Rightarrow> string" where
  "dep_bullet d = ''- **'' @ d @ ''**: Completed''"

definition decision_bullet :: "string \<Rightarrow> string" where
  "decision_bullet d = ''- **'' @ d @ ''**: See decisions.md for details''"

definition edge_case_bullet :: "string \<Rightarrow> string" where
  "edge_case_bullet ec = ''- **'' @ ec @ ''**: See edge-cases.md for handling details''"

definition code_ref_bullet :: "string \<Rightarrow> string" where
  "code_ref_bullet r = ''- `'' @ r @ ''` - Implementation patterns''"

definition header_section :: "int \<Rightarrow> string \<Rightarrow> string list \<Rightarrow> string \<Rightarrow> string" where
  "header_section n t deps obj =
     ''# Feature: F'' @ fmt_d 3 n @ '' - '' @ t @ ''\<newline>''
   @ ''\<newline>''
   @ ''## Project Context\<newline>''
   @ ''\<newline>''
   @ ''See `context.md` for feature rationale and architecture vision.\<newline>''
   @ ''\<newline>''
   @ ''## Prior Work\<newline>''
   @ ''\<newline>''
   @ join ''\<newline>'' (map dep_bullet deps) @ ''\<newline>''
   @ ''\<newline>''
   @ ''## Objective\<newline>''
   @ ''\<newline>''
   @ obj @ ''\<newline>''
   @ ''\<newline>''
   @ ''> **Scope Constraint**: It is unacceptable to implement features beyond this task's scope.\<newline>''"

definition decisions_section :: "string list \<Rightarrow> string" where
  "decisions_section ds =
     ''\<newline>''
   @ ''## Relevant Decisions\<newline>''
   @ ''\<newline>''
   @ ''From `decisions.md`:\<newline>''
   @ join ''\<newline>'' (map decision_bullet ds) @ ''\<newline>''"

definition edge_cases_section :: "string list \<Rightarrow> string" where
  "edge_cases_section ecs =
     ''\<newline>''
   @ ''## Edge Cases to Handle\<newline>''
   @ ''\<newline>''
   @ ''From `edge-cases.md`:\<newline>''
   @ join ''\<newline>'' (map edge_case_bullet ecs) @ ''\<newline>''"

definition code_refs_section :: "string list \<Rightarrow> string" where
  "code_refs_section refs =
     ''\<newline>''
   @ ''## Code References\<newline>''
   @ ''\<newline>''
   @ ''Read these sections before implementing:\<newline>''
   @ join ''\<newline>'' (map code_ref_bullet refs) @ ''\<newline>''"

definition constraints_section :: string where
  "constraints_section =
     ''\<newline>''
   @ ''## Constraints\<newline>''
   @ ''\<newline>''
   @ ''- See `constraints.md` for global rules\<newline>''"

definition install_line :: "string \<Rightarrow> string" where
  "install_line cmds = ''- Install components using: `'' @ cmds @ ''`\<newline>''"

definition files_section :: string where
  "files_section =
     ''\<newline>''
   @ ''## Files to Create/Modify\<newline>''
   @ ''\<newline>''
   @ ''| File | Purpose |\<newline>''
   @ ''|------|---------|\<newline>''"

definition file_row :: "string \<Rightarrow> string" where
  "file_row f = ''| `hooks/viewer/'' @ f @ ''` | See objective |\<newline>''"

definition commands_section :: "string \<Rightarrow> string" where
  "commands_section cmds =
     ''\<newline>''
   @ ''## Implementation Details\<newline>''
   @ ''\<newline>''
   @ ''Run these commands:\<newline>''
   @ ''```bash\<newline>''
   @ ''cd C:/Users/bobby/src/claude/claude-hall-monitor/hooks/viewer\<newline>''
   @ cmds @ ''\<newline>''
   @ ''```\<newline>''"

definition no_commands_section :: string where
  "no_commands_section =
     ''\<newline>''
   @ ''## Implementation Details\<newline>''
   @ ''\<newline>''
   @ ''See code references for complete implementation patterns.\<newline>''"

definition acceptance_section :: string where
  \<open>acceptance_section =
     ''\<newline>''
   @ ''## Acceptance Criteria\<newline>''
   @ ''\<newline>''
   @ ''- [ ] All files created/modified as specified\<newline>''
   @ ''- [ ] TypeScript compiles without errors\<newline>''
   @ ''- [ ] Functionality works as expected\<newline>''
   @ ''\<newline>''
   @ ''## Verification\<newline>''
   @ ''\<newline>''
   @ ''```bash\<newline>''
   @ ''cd C:/Users/bobby/src/claude/claude-hall-monitor/hooks/viewer\<newline>''
   @ ''bun run tsc --noEmit\<newline>''
   @ ''```\<newline>''
   @ ''\<newline>''
   @ ''## Commit\<newline>''
   @ ''\<newline>''
   @ ''```bash\<newline>''
   @ ''git add hooks/viewer/\<newline>''
   @ ''git commit -m "$(cat <<'EOF'\<newline>''\<close>

definition commit_message :: "string \<Rightarrow> string \<Rightarrow> string \<Rightarrow> int \<Rightarrow> string" where
  "commit_message sc t obj n =
     ''feat('' @ sc @ ''): '' @ lower t @ ''\<newline>''
   @ ''\<newline>''
   @ obj @ ''\<newline>''
   @ ''\<newline>''
   @ ''Implements: F'' @ fmt_d 3 n @ ''\<newline>''"

definition decisions_line :: "string list \<Rightarrow> string" where
  "decisions_line ds = ''Decisions: '' @ join '', '' ds @ ''\<newline>''"

definition edge_cases_line :: "string list \<Rightarrow> string" where
  "edge_cases_line ecs = ''Edge Cases: '' @ join '', '' ecs @ ''\<newline>''"

definition attribution_section :: string where
  \<open>attribution_section =
     ''\<newline>''
   @ [CHR 0xC3, CHR 0xB0, CHR 0xC5, CHR 0xB8, CHR 0xC2, CHR 0xA4, CHR 0xE2, CHR 0x80, CHR 0x93]
   @ '' Generated with [Claude Code](https://claude.com/claude-code)\<newline>''
   @ ''\<newline>''
   @ ''Co-Authored-By: Claude Opus 4.5 <noreply@anthropic.com>\<newline>''
   @ ''EOF\<newline>''
   @ '')"\<newline>''
   @ ''```\<newline>''\<close>

definition next_pointer :: "int \<Rightarrow> string" where
  "next_pointer k =
     ''\<newline>## Next\<newline>\<newline>Proceed to: `prompts/'' @ fmt_d 2 k @ ''-*.md` (F'' @ fmt_d 3 k
       @ '')\<newline>''"

definition all_complete :: string where
  "all_complete =
     ''\<newline>## Next\<newline>\<newline>All features complete! Create manifest.jsonl and README.md.\<newline>''"

text \<open>
  \<^verbatim>\<open>next_num = num + 1 if num < 32 else None\<close>, then \<^verbatim>\<open>if next_num:\<close>. The test is
  Python truthiness: \<^verbatim>\<open>None\<close> and the integer \<open>0\<close> are both false.
\<close>

definition next_num :: "int \<Rightarrow> int option" where
  "next_num n = (if n < 32 then Some (n + 1) else None)"

definition next_section :: "int \<Rightarrow> string" where
  "next_section n =
     (case next_num n of
        None \<Rightarrow> all_complete
      | Some k \<Rightarrow> if k \<noteq> 0 then next_pointer k else all_complete)"

subsection \<open>\<^verbatim>\<open>generate_prompt\<close>\<close>

text \<open>The body of \<^verbatim>\<open>generate_prompt\<close> after the ten fields are read: one summand per
  \<^verbatim>\<open>content = ...\<close> or \<^verbatim>\<open>content += ...\<close> of the source, in its order.\<close>

definition render ::
  "int \<Rightarrow> string \<Rightarrow> string \<Rightarrow> string list \<Rightarrow> string list \<Rightarrow> string \<Rightarrow> string \<Rightarrow>
   string list \<Rightarrow> string list \<Rightarrow> string list \<Rightarrow> string" where
  "render n t obj deps fls cmds sc ds ecs refs =
     header_section n t deps obj
   @ (if ds \<noteq> [] then decisions_section ds else [])
   @ (if ecs \<noteq> [] then edge_cases_section ecs else [])
   @ (if refs \<noteq> [] then code_refs_section refs else [])
   @ constraints_section
   @ (if cmds \<noteq> [] then install_line cmds else [])
   @ files_section
   @ concat (map file_row fls)
   @ (if cmds \<noteq> [] then commands_section cmds else no_commands_section)
   @ acceptance_section
   @ commit_message sc t obj n
   @ (if ds \<noteq> [] then decisions_line ds else [])
   @ (if ecs \<noteq> [] then edge_cases_line ecs else [])
   @ attribution_section
   @ next_section n"

definition generate_prompt :: "prompt \<Rightarrow> py_error + string" where
  "generate_prompt p =
     (case num p of None \<Rightarrow> Inl (KeyError ''num'') | Some n \<Rightarrow>
     (case title p of None \<Rightarrow> Inl (KeyError ''title'') | Some t \<Rightarrow>
     (case objective p of None \<Rightarrow> Inl (KeyError ''objective'') | Some obj \<Rightarrow>
        Inr (render n t obj
               (get_or (depends p) [])
               (get_or (files p) [])
               (get_or (commands p) [])
               (get_or (scope p) ''viewer'')
               (get_or (decisions p) [])
               (get_or (edge_cases p) [])
               (get_or (code_refs p) [])))))"

subsection \<open>The file system and the console\<close>

text \<open>
  The part of the environment the script touches: the directories that exist, the regular
  files with their text, the paths that the operating system refuses to open for writing
  for a reason of its own (a name longer than the file system allows, missing
  permissions), and the texts printed so far, one entry per call of \<^verbatim>\<open>print\<close> (which
  ends each with a newline). \<^verbatim>\<open>open(path, 'w')\<close> followed by \<^verbatim>\<open>f.write(text)\<close> replaces the
  file's text; it creates the file but never a directory. It fails when the parent
  directory is not an existing directory (nothing is there, or a regular file is), when
  the path names a directory, and when the operating system refuses the path. A failure
  while writing (a full disk) is not modelled, and the text of a file is the string that
  was written (the translation of newlines that text mode performs on some platforms is
  not modelled).
\<close>

record world =
  fs_dirs :: "string set"
  fs_files :: "string \<rightharpoonup> string"
  fs_refused :: "string set"
  stdout :: "string list"

definition dirname :: "string \<Rightarrow> string" where
  "dirname path = rev (tl (dropWhile (\<lambda>c. c \<noteq> CHR ''/'') (rev path)))"

definition open_write :: "world \<Rightarrow> string \<Rightarrow> string \<Rightarrow> py_error + world" where
  "open_write w path text =
     (if dirname path \<notin> fs_dirs w then Inl (OSError path)
      else if path \<in> fs_dirs w then Inl (OSError path)
      else if path \<in> fs_refused w then Inl (OSError path)
      else Inr (w\<lparr>fs_files := (fs_files w)(path \<mapsto> text)\<rparr>))"

definition print :: "world \<Rightarrow> string \<Rightarrow> world" where
  "print w line = w\<lparr>stdout := stdout w @ [line]\<rparr>"

subsection \<open>The top-level loop\<close>

definition base_dir :: string where
  "base_dir =
     ''C:/Users/bobby/src/claude/claude-hall-monitor/dev/active/realtime-metrics-dashboard/prompts''"

text \<open>\<^verbatim>\<open>f"{base_dir}/{num:02d}-{p['scope']}.md"\<close>.\<close>

definition filename :: "int \<Rightarrow> string \<Rightarrow> string" where
  "filename n sc = base_dir @ ''/'' @ fmt_d 2 n @ ''-'' @ sc @ ''.md''"

definition created_line :: "int \<Rightarrow> string" where
  "created_line n = ''Created F'' @ fmt_d 3 n"

text \<open>One iteration. An exception leaves the world as it was before the iteration: the
  keys are read and the document is rendered before the file is opened.\<close>

definition loop_body :: "prompt \<Rightarrow> world \<Rightarrow> py_error + world" where
  "loop_body p w =
     (case num p of None \<Rightarrow> Inl (KeyError ''num'') | Some n \<Rightarrow>
     (case scope p of None \<Rightarrow> Inl (KeyError ''scope'') | Some sc \<Rightarrow>
     (case generate_prompt p of Inl e \<Rightarrow> Inl e | Inr content \<Rightarrow>
     (case open_write w (filename n sc) content of Inl e \<Rightarrow> Inl e | Inr w' \<Rightarrow>
        Inr (print w' (created_line n))))))"

text \<open>The loop stops at the first exception, which ends the script; the result is the
  exception, if any, and the world left behind.\<close>

fun main_loop :: "prompt list \<Rightarrow> world \<Rightarrow> py_error option \<times> world" where
  "main_loop [] w = (None, w)"
| "main_loop (p # ps) w =
     (case loop_body p w of
        Inl e \<Rightarrow> (Some e, w)
      | Inr w' \<Rightarrow> main_loop ps w')"

subsection \<open>The table \<^verbatim>\<open>prompts\<close>\<close>

definition prompts :: "prompt list" where
  "prompts =
    [
     \<lparr>num = Some 10, title = Some ''Install shadcn/ui Data Display Components'',
      objective = Some ''Install shadcn/ui components for data display: card, badge, progress, table, tabs.'',
      depends = Some [''F003''],
      files = Some [''src/components/ui/*''],
      commands = Some ''bun x shadcn@latest add card badge progress table tabs'',
      scope = Some ''shadcn-data'',
      decisions = None,
      edge_cases = None,
      code_refs = None\<rparr>,
     \<lparr>num = Some 11, title = Some ''Install shadcn/ui Form & Feedback Components'',
      objective = Some ''Install shadcn/ui components: button, input, select, dropdown-menu, tooltip, skeleton, toast, alert.'',
      depends = Some [''F003''],
      files = Some [''src/components/ui/*''],
      commands = Some ''bun x shadcn@latest add button input select dropdown-menu tooltip skeleton toast alert'',
      scope = Some ''shadcn-forms'',
      decisions = None,
      edge_cases = None,
      code_refs = None\<rparr>,
     \<lparr>num = Some 12, title = Some ''Install shadcn/ui Chart Components'',
      objective = Some ''Install shadcn/ui chart components and Recharts dependency.'',
      depends = Some [''F003''],
      files = Some [''src/components/ui/chart.tsx''],
      commands = Some ''bun x shadcn@latest add chart'',
      scope = Some ''shadcn-charts'',
      decisions = None,
      edge_cases = None,
      code_refs = None\<rparr>,
     \<lparr>num = Some 13, title = Some ''Build Layout Components'',
      objective = Some ''Create app-sidebar, header, and page-container layout components.'',
      depends = Some [''F009''],
      files = Some [''src/components/layout/app-sidebar.tsx'', ''src/components/layout/header.tsx'', ''src/components/layout/page-container.tsx''],
      commands = Some '''',
      scope = Some ''layout'',
      decisions = Some [''D003''],
      edge_cases = None,
      code_refs = Some [''code/typescript.md#components'']\<rparr>,
     \<lparr>num = Some 14, title = Some ''Create App Shell with Layout'',
      objective = Some ''Update App.tsx with sidebar, header, and main content area layout.'',
      depends = Some [''F004'', ''F013''],
      files = Some [''src/App.tsx''],
      commands = Some '''',
      scope = Some ''app-shell'',
      decisions = None,
      edge_cases = None,
      code_refs = Some [''code/typescript.md#components'']\<rparr>,
     \<lparr>num = Some 15, title = Some ''Build Plan Card Components'',
      objective = Some ''Create plan-card (expanded) and plan-card-compact components.'',
      depends = Some [''F010''],
      files = Some [''src/components/plans/plan-card.tsx'', ''src/components/plans/plan-card-compact.tsx''],
      commands = Some '''',
      scope = Some ''plans'',
      decisions = Some [''D009''],
      edge_cases = Some [''EC003''],
      code_refs = Some [''code/typescript.md#components'']\<rparr>,
     \<lparr>num = Some 16, title = Some ''Build Active Orchestrations Component'',
      objective = Some ''Create active-orchestrations component with SSE integration for realtime updates.'',
      depends = Some [''F015'', ''F008''],
      files = Some [''src/components/plans/active-orchestrations.tsx''],
      commands = Some '''',
      scope = Some ''plans'',
      decisions = Some [''D001'', ''D007''],
      edge_cases = Some [''EC001'', ''EC002'', ''EC003''],
      code_refs = Some [''code/typescript.md#components'']\<rparr>,
     \<lparr>num = Some 17, title = Some ''Build Metrics Display Components'',
      objective = Some ''Create stat-card and metrics-grid components.'',
      depends = Some [''F010''],
      files = Some [''src/components/metrics/stat-card.tsx'', ''src/components/metrics/metrics-grid.tsx''],
      commands = Some '''',
      scope = Some ''metrics'',
      decisions = None,
      edge_cases = None,
      code_refs = Some [''code/typescript.md#components'']\<rparr>,
     \<lparr>num = Some 18, title = Some ''Build Chart Components'',
      objective = Some ''Create cost-chart (area) and tokens-chart (bar) components using Recharts.'',
      depends = Some [''F012''],
      files = Some [''src/components/metrics/cost-chart.tsx'', ''src/components/metrics/tokens-chart.tsx''],
      commands = Some '''',
      scope = Some ''metrics'',
      decisions = Some [''D011''],
      edge_cases = None,
      code_refs = Some [''code/typescript.md#components'']\<rparr>,
     \<lparr>num = Some 19, title = Some ''Build Plan List and Detail Components'',
      objective = Some ''Create plan-list, plan-detail, and feature-list components.'',
      depends = Some [''F010''],
      files = Some [''src/components/plans/plan-list.tsx'', ''src/components/plans/plan-detail.tsx'', ''src/components/plans/feature-list.tsx''],
      commands = Some '''',
      scope = Some ''plans'',
      decisions = Some [''D004''],
      edge_cases = Some [''EC008'', ''EC009''],
      code_refs = Some [''code/typescript.md#components'']\<rparr>,
     \<lparr>num = Some 20, title = Some ''Build Orchestration Timeline'',
      objective = Some ''Create orchestration-timeline component for visual parallel execution.'',
      depends = Some [''F010''],
      files = Some [''src/components/plans/orchestration-timeline.tsx''],
      commands = Some '''',
      scope = Some ''plans'',
      decisions = Some [''D005''],
      edge_cases = None,
      code_refs = Some [''code/typescript.md#components'']\<rparr>,
     \<lparr>num = Some 21, title = Some ''Build Session Components'',
      objective = Some ''Create session-list, session-detail, and tool-usage-chart components.'',
      depends = Some [''F010'', ''F012''],
      files = Some [''src/components/sessions/session-list.tsx'', ''src/components/sessions/session-detail.tsx'', ''src/components/sessions/tool-usage-chart.tsx''],
      commands = Some '''',
      scope = Some ''sessions'',
      decisions = None,
      edge_cases = Some [''EC005''],
      code_refs = Some [''code/typescript.md#components'']\<rparr>,
     \<lparr>num = Some 22, title = Some ''Build Overview Page'',
      objective = Some ''Assemble Overview page with ActiveOrchestrations, MetricsGrid, and Charts.'',
      depends = Some [''F016'', ''F017'', ''F018''],
      files = Some [''src/pages/overview.tsx''],
      commands = Some '''',
      scope = Some ''overview'',
      decisions = Some [''D001''],
      edge_cases = Some [''EC002''],
      code_refs = Some [''code/typescript.md#components'']\<rparr>,
     \<lparr>num = Some 23, title = Some ''Build Plans Page'',
      objective = Some ''Assemble Plans page with tabs, PlanList, PlanDetail, and OrchestrationTimeline.'',
      depends = Some [''F019'', ''F020''],
      files = Some [''src/pages/plans.tsx''],
      commands = Some '''',
      scope = Some ''plans'',
      decisions = Some [''D004'', ''D005''],
      edge_cases = None,
      code_refs = Some [''code/typescript.md#components'']\<rparr>,
     \<lparr>num = Some 24, title = Some ''Build Sessions Page'',
      objective = Some ''Assemble Sessions page with filters, SessionList, and SessionDetail.'',
      depends = Some [''F021''],
      files = Some [''src/pages/sessions.tsx''],
      commands = Some '''',
      scope = Some ''sessions'',
      decisions = Some [''D004''],
      edge_cases = Some [''EC005''],
      code_refs = Some [''code/typescript.md#components'']\<rparr>,
     \<lparr>num = Some 25, title = Some ''Build Settings Page'',
      objective = Some ''Create Settings page with theme toggle and preferences.'',
      depends = Some [''F011''],
      files = Some [''src/pages/settings.tsx''],
      commands = Some '''',
      scope = Some ''settings'',
      decisions = None,
      edge_cases = None,
      code_refs = Some [''code/typescript.md#components'']\<rparr>,
     \<lparr>num = Some 26, title = Some ''Implement Loading and Error States'',
      objective = Some ''Add skeletons, error boundaries, toasts, and empty states to all pages.'',
      depends = Some [''F011'', ''F022'', ''F023'', ''F024''],
      files = Some [''src/components/ui/error-boundary.tsx'', ''src/lib/toast.ts''],
      commands = Some '''',
      scope = Some ''polish'',
      decisions = None,
      edge_cases = Some [''EC002'', ''EC004'', ''EC010''],
      code_refs = Some [''code/typescript.md#error-handling'']\<rparr>,
     \<lparr>num = Some 27, title = Some ''Add Responsive Design'',
      objective = Some ''Implement mobile viewport handling with collapsible sidebar.'',
      depends = Some [''F014''],
      files = Some [''src/App.tsx'', ''src/components/layout/app-sidebar.tsx''],
      commands = Some '''',
      scope = Some ''responsive'',
      decisions = None,
      edge_cases = Some [''EC007''],
      code_refs = Some [''code/css.md#responsive'']\<rparr>,
     \<lparr>num = Some 28, title = Some ''Implement Keyboard Shortcuts'',
      objective = Some ''Add keyboard shortcuts for navigation and sidebar toggle.'',
      depends = Some [''F014'', ''F022'', ''F023'', ''F024''],
      files = Some [''src/hooks/use-keyboard.ts'', ''src/App.tsx''],
      commands = Some '''',
      scope = Some ''keyboard'',
      decisions = None,
      edge_cases = None,
      code_refs = Some [''code/typescript.md#hooks'']\<rparr>,
     \<lparr>num = Some 29, title = Some ''Theme Persistence and System Integration'',
      objective = Some ''Implement localStorage theme persistence with system theme fallback.'',
      depends = Some [''F025''],
      files = Some [''src/hooks/use-theme.ts'', ''src/pages/settings.tsx''],
      commands = Some '''',
      scope = Some ''theme'',
      decisions = None,
      edge_cases = Some [''EC006''],
      code_refs = Some [''code/typescript.md#hooks'']\<rparr>,
     \<lparr>num = Some 30, title = Some ''Update Server Integration'',
      objective = Some ''Modify server.ts to serve React build from dist/.'',
      depends = Some [''F022'', ''F023'', ''F024''],
      files = Some [''hooks/viewer/server.ts''],
      commands = Some '''',
      scope = Some ''server'',
      decisions = Some [''D012''],
      edge_cases = None,
      code_refs = Some [''code/typescript.md#server'']\<rparr>,
     \<lparr>num = Some 31, title = Some ''Configure Vite Build Process'',
      objective = Some ''Configure vite.config.ts and update build.ts for production builds.'',
      depends = Some [''F001'', ''F030''],
      files = Some [''hooks/viewer/vite.config.ts'', ''hooks/build.ts''],
      commands = Some '''',
      scope = Some ''build'',
      decisions = None,
      edge_cases = None,
      code_refs = Some [''code/html.md#vite-config'', ''code/bash.md#build'']\<rparr>,
     \<lparr>num = Some 32, title = Some ''Integration Testing and Verification'',
      objective = Some ''Test all pages with real API, verify SSE, theme, and keyboard shortcuts.'',
      depends = Some [''F031''],
      files = Some [''src/__tests__/integration.test.tsx''],
      commands = Some '''',
      scope = Some ''testing'',
      decisions = None,
      edge_cases = None,
      code_refs = Some [''code/typescript.md#testing'']\<rparr>
    ]"

text \<open>
  The script over a table \<open>ps\<close>: the loop and, when the loop has ended without an
  exception, the statement after it, \<^verbatim>\<open>print(f"\nTotal prompts created: {len(prompts)}")\<close>.
  The printed text begins with a newline, so an empty line precedes the summary on the
  console.
\<close>

definition script :: "prompt list \<Rightarrow> world \<Rightarrow> py_error option \<times> world" where
  "script ps w =
     (case main_loop ps w of
        (Some e, w') \<Rightarrow> (Some e, w')
      | (None, w') \<Rightarrow>
          (None, print w' (''\<newline>Total prompts created: '' @ dec (length ps))))"

definition main :: "world \<Rightarrow> py_error option \<times> world" where
  "main w = script prompts w"

subsection \<open>A small record set\<close>

text \<open>
  Three records with the sequence numbers 1, 2, 3 and the category tags \<^verbatim>\<open>a\<close>, \<^verbatim>\<open>b\<close>,
  \<^verbatim>\<open>c\<close>, carrying only the four keys the script reads with \<^verbatim>\<open>p[...]\<close>; a file system in
  which the output directory exists and is empty, and one in which it does not exist.
  In both no path is refused.
\<close>

definition task :: "int \<Rightarrow> string \<Rightarrow> prompt" where
  "task n tag =
     \<lparr>num = Some n, title = Some ''Task'', objective = Some ''Do it.'', depends = None,
      files = None, commands = None, scope = Some tag, decisions = None, edge_cases = None,
      code_refs = None\<rparr>"

definition scenario :: "prompt list" where
  "scenario = [task 1 ''a'', task 2 ''b'', task 3 ''c'']"

definition fresh :: world where
  "fresh = \<lparr>fs_dirs = {base_dir}, fs_files = Map.empty, fs_refused = {}, stdout = []\<rparr>"


subsection \<open>Auxiliary notions for the proofs\<close>

text \<open>Reading a decimal numeral back, to show that formatting loses nothing.\<close>

definition is_digit :: "char \<Rightarrow> bool" where
  "is_digit c = (c \<in> set ''0123456789'')"

definition digit_val :: "char \<Rightarrow> nat" where
  "digit_val c = length (takeWhile (\<lambda>d. d \<noteq> c) ''0123456789'')"

definition str_val :: "string \<Rightarrow> nat" where
  "str_val s = foldl (\<lambda>a c. 10 * a + digit_val c) 0 s"

text \<open>
  A document as a list of lines. \<open>lines_of\<close> cuts a text at its newline characters
  (a last line without a newline is kept, as \<^verbatim>\<open>str.splitlines\<close> does); \<open>unlines\<close> ends
  every line with a newline. \<open>texts\<close> collects the strings of a record that
  \<^verbatim>\<open>generate_prompt\<close> puts into the document. The functions \<open>header_lines\<close> to
  \<open>doc_lines\<close> list the lines of the sections; they are shown below to be the lines of
  the text that \<open>render\<close> builds.
\<close>

fun lines_of :: "string \<Rightarrow> string list" where
  "lines_of [] = []"
| "lines_of (c # cs) =
     (if c = CHR ''\<newline>'' then [] # lines_of cs
      else (case lines_of cs of [] \<Rightarrow> [[c]] | l # ls \<Rightarrow> (c # l) # ls))"

definition unlines :: "string list \<Rightarrow> string" where
  "unlines ls = concat (map (\<lambda>l. l @ ''\<newline>'') ls)"

definition single_line :: "string \<Rightarrow> bool" where
  "single_line s = (CHR ''\<newline>'' \<notin> set s)"

definition texts :: "prompt \<Rightarrow> string list" where
  "texts p =
     [get_or (title p) [], get_or (objective p) [], get_or (commands p) [],
      get_or (scope p) ''viewer'']
     @ get_or (depends p) [] @ get_or (files p) [] @ get_or (decisions p) []
     @ get_or (edge_cases p) [] @ get_or (code_refs p) []"

definition header_lines :: "int \<Rightarrow> string \<Rightarrow> string list \<Rightarrow> string \<Rightarrow> string list" where
  "header_lines n t deps obj =
     [''# Feature: F'' @ fmt_d 3 n @ '' - '' @ t,
      [],
      ''## Project Context'',
      [],
      ''See `context.md` for feature rationale and architecture vision.'',
      [],
      ''## Prior Work'',
      []]
     @ (if deps = [] then [[]] else map dep_bullet deps)
     @ [[],
      ''## Objective'',
      [],
      obj,
      [],
      ''> **Scope Constraint**: It is unacceptable to implement features beyond this task's scope.'']"

definition decisions_lines :: "string list \<Rightarrow> string list" where
  "decisions_lines ds =
     [[], ''## Relevant Decisions'', [], ''From `decisions.md`:''] @ map decision_bullet ds"

definition edge_cases_lines :: "string list \<Rightarrow> string list" where
  "edge_cases_lines ecs =
     [[], ''## Edge Cases to Handle'', [], ''From `edge-cases.md`:''] @ map edge_case_bullet ecs"

definition code_refs_lines :: "string list \<Rightarrow> string list" where
  "code_refs_lines refs =
     [[], ''## Code References'', [], ''Read these sections before implementing:'']
     @ map code_ref_bullet refs"

definition middle_lines :: "string list \<Rightarrow> string \<Rightarrow> string list" where
  "middle_lines fls cmds =
     [[], ''## Constraints'', [], ''- See `constraints.md` for global rules'']
     @ (if cmds \<noteq> [] then [''- Install components using: `'' @ cmds @ ''`''] else [])
     @ [[], ''## Files to Create/Modify'', [], ''| File | Purpose |'', ''|------|---------|'']
     @ map (\<lambda>f. ''| `hooks/viewer/'' @ f @ ''` | See objective |'') fls
     @ (if cmds \<noteq> []
        then [[], ''## Implementation Details'', [], ''Run these commands:'', ''```bash'',
              ''cd C:/Users/bobby/src/claude/claude-hall-monitor/hooks/viewer'', cmds, ''```'']
        else [[], ''## Implementation Details'', [],
              ''See code references for complete implementation patterns.''])"

definition acceptance_lines :: "string list" where
  \<open>acceptance_lines =
     [[],
      ''## Acceptance Criteria'',
      [],
      ''- [ ] All files created/modified as specified'',
      ''- [ ] TypeScript compiles without errors'',
      ''- [ ] Functionality works as expected'',
      [],
      ''## Verification'',
      [],
      ''```bash'',
      ''cd C:/Users/bobby/src/claude/claude-hall-monitor/hooks/viewer'',
      ''bun run tsc --noEmit'',
      ''```'',
      [],
      ''## Commit'',
      [],
      ''```bash'',
      ''git add hooks/viewer/'',
      ''git commit -m "$(cat <<'' @ [CHR 0x27] @ ''EOF'' @ [CHR 0x27]]\<close>

definition commit_lines ::
  "string \<Rightarrow> string \<Rightarrow> string \<Rightarrow> int \<Rightarrow> string list \<Rightarrow> string list \<Rightarrow> string list" where
  "commit_lines sc t obj n ds ecs =
     [''feat('' @ sc @ ''): '' @ lower t, [], obj, [], ''Implements: F'' @ fmt_d 3 n]
     @ (if ds \<noteq> [] then [''Decisions: '' @ join '', '' ds] else [])
     @ (if ecs \<noteq> [] then [''Edge Cases: '' @ join '', '' ecs] else [])"

definition attribution_lines :: "string list" where
  \<open>attribution_lines =
     [[],
      [CHR 0xC3, CHR 0xB0, CHR 0xC5, CHR 0xB8, CHR 0xC2, CHR 0xA4, CHR 0xE2, CHR 0x80, CHR 0x93]
        @ '' Generated with [Claude Code](https://claude.com/claude-code)'',
      [],
      ''Co-Authored-By: Claude Opus 4.5 <noreply@anthropic.com>'',
      ''EOF'',
      '')"'',
      ''```'']\<close>

definition next_lines :: "int \<Rightarrow> string list" where
  "next_lines n =
     [[], ''## Next'', [],
      (case next_num n of
         None \<Rightarrow> ''All features complete! Create manifest.jsonl and README.md.''
       | Some k \<Rightarrow>
           if k \<noteq> 0
           then ''Proceed to: `prompts/'' @ fmt_d 2 k @ ''-*.md` (F'' @ fmt_d 3 k @ '')''
           else ''All features complete! Create manifest.jsonl and README.md.'')]"

definition doc_lines ::
  "int \<Rightarrow> string \<Rightarrow> string \<Rightarrow> string list \<Rightarrow> string list \<Rightarrow> string \<Rightarrow> string \<Rightarrow>
   string list \<Rightarrow> string list \<Rightarrow> string list \<Rightarrow> string list" where
  "doc_lines n t obj deps fls cmds sc ds ecs refs =
     header_lines n t deps obj
   @ (if ds \<noteq> [] then decisions_lines ds else [])
   @ (if ecs \<noteq> [] then edge_cases_lines ecs else [])
   @ (if refs \<noteq> [] then code_refs_lines refs else [])
   @ middle_lines fls cmds
   @ acceptance_lines
   @ commit_lines sc t obj n ds ecs
   @ attribution_lines
   @ next_lines n"

section \<open>Number formatting\<close>

declare dec.simps [simp del]

lemma digit_char_cases:
  assumes "(d::nat) < 10"
  obtains "d = 0" | "d = 1" | "d = 2" | "d = 3" | "d = 4" | "d = 5" | "d = 6" | "d = 7" | "d = 8" | "d = 9"
proof -
  from assms have "d = 0 \<or> d = 1 \<or> d = 2 \<or> d = 3 \<or> d = 4 \<or> d = 5 \<or> d = 6 \<or> d = 7 \<or> d = 8 \<or> d = 9"
    by (auto simp: less_Suc_eq numeral_eq_Suc)
  with that show thesis by blast
qed

lemma digit_val_digit_char: "d < 10 \<Longrightarrow> digit_val (digit_char d) = d"
  by (erule digit_char_cases) (simp_all add: digit_val_def digit_char_def)

lemma is_digit_digit_char: "d < 10 \<Longrightarrow> is_digit (digit_char d)"
  by (erule digit_char_cases) (simp_all add: is_digit_def digit_char_def)

lemma digit_char_0: "digit_char 0 = CHR ''0''"
  by (simp add: digit_char_def)

lemma dec_digits: "\<forall>c \<in> set (dec n). is_digit c"
proof (induction n rule: dec.induct)
  case (1 n)
  show ?case
  proof (cases "n < 10")
    case True
    then show ?thesis by (simp add: dec.simps [of n] is_digit_digit_char)
  next
    case False
    with 1 show ?thesis by (simp add: dec.simps [of n] is_digit_digit_char)
  qed
qed

lemma dec_nonempty: "dec n \<noteq> []"
  by (subst dec.simps) simp

lemma str_val_snoc: "str_val (s @ [c]) = 10 * str_val s + digit_val c"
  by (simp add: str_val_def)

lemma str_val_dec: "str_val (dec n) = n"
proof (induction n rule: dec.induct)
  case (1 n)
  show ?case
  proof (cases "n < 10")
    case True
    then show ?thesis by (simp add: dec.simps [of n] str_val_def digit_val_digit_char)
  next
    case False
    with 1 have "str_val (dec (n div 10)) = n div 10" by simp
    with False show ?thesis
      by (simp add: dec.simps [of n] str_val_snoc digit_val_digit_char)
  qed
qed

lemma str_val_zeros: "str_val (replicate k CHR ''0'' @ s) = str_val s"
proof -
  have "foldl (\<lambda>a c. 10 * a + digit_val c) 0 (replicate k CHR ''0'') = 0"
    by (induction k) (simp_all add: digit_val_def)
  then show ?thesis by (simp add: str_val_def)
qed

lemma str_val_zfill: "str_val (zfill w (dec n)) = n"
  by (simp add: zfill_def str_val_zeros str_val_dec)

lemma is_digit_zero: "is_digit CHR ''0''"
  by (simp add: is_digit_def)

lemma zfill_digits: "\<forall>c \<in> set (zfill w (dec n)). is_digit c"
  using dec_digits [of n] by (auto simp: zfill_def is_digit_zero)

lemma zfill_nonempty: "zfill w (dec n) \<noteq> []"
  by (simp add: zfill_def dec_nonempty)

lemma dash_not_digit: "\<not> is_digit CHR ''-''"
  by (simp add: is_digit_def)

lemma split_at_dash:
  assumes "xs @ CHR ''-'' # r = ys @ CHR ''-'' # r'"
    and "\<forall>c \<in> set xs. is_digit c" and "\<forall>c \<in> set ys. is_digit c"
  shows "xs = ys \<and> r = r'"
proof -
  have "takeWhile is_digit (xs @ CHR ''-'' # r) = xs"
    using assms(2) by (simp add: takeWhile_append2 dash_not_digit)
  moreover have "takeWhile is_digit (ys @ CHR ''-'' # r') = ys"
    using assms(3) by (simp add: takeWhile_append2 dash_not_digit)
  ultimately have "xs = ys" using assms(1) by simp
  with assms(1) show ?thesis by simp
qed

lemma fmt_d_split:
  assumes "fmt_d w n @ CHR ''-'' # r = fmt_d w m @ CHR ''-'' # r'"
  shows "n = m \<and> r = r'"
proof -
  let ?zn = "zfill w (dec (nat n))" and ?zm = "zfill w (dec (nat m))"
  let ?yn = "zfill (w - 1) (dec (nat (- n)))" and ?ym = "zfill (w - 1) (dec (nat (- m)))"
  have hd_digit: "is_digit (hd (zfill w k))" if "zfill w k \<noteq> []" "\<forall>c \<in> set (zfill w k). is_digit c" for w k
    using that hd_in_set by blast
  consider (pp) "0 \<le> n" "0 \<le> m" | (nn) "n < 0" "m < 0" | (pn) "0 \<le> n" "m < 0" | (np) "n < 0" "0 \<le> m"
    by linarith
  then show ?thesis
  proof cases
    case pp
    with assms have "?zn @ CHR ''-'' # r = ?zm @ CHR ''-'' # r'" by (simp add: fmt_d_def)
    then have e: "?zn = ?zm \<and> r = r'" by (rule split_at_dash) (rule zfill_digits)+
    then have "str_val ?zn = str_val ?zm" by simp
    then have "nat n = nat m" by (simp add: str_val_zfill)
    with pp e show ?thesis by simp
  next
    case nn
    with assms have "?yn @ CHR ''-'' # r = ?ym @ CHR ''-'' # r'" by (simp add: fmt_d_def)
    then have e: "?yn = ?ym \<and> r = r'" by (rule split_at_dash) (rule zfill_digits)+
    then have "str_val ?yn = str_val ?ym" by simp
    then have "nat (- n) = nat (- m)" by (simp add: str_val_zfill)
    with nn e show ?thesis by simp
  next
    case pn
    with assms have "?zn @ CHR ''-'' # r = CHR ''-'' # ?ym @ CHR ''-'' # r'" by (simp add: fmt_d_def)
    then have "hd ?zn = CHR ''-''" using zfill_nonempty [of w "nat n"] by (cases ?zn) simp_all
    with hd_digit [OF zfill_nonempty zfill_digits, of w "nat n"] show ?thesis by (simp add: dash_not_digit)
  next
    case np
    with assms have "CHR ''-'' # ?yn @ CHR ''-'' # r = ?zm @ CHR ''-'' # r'" by (simp add: fmt_d_def)
    then have "hd ?zm = CHR ''-''" using zfill_nonempty [of w "nat m"] by (cases ?zm) simp_all
    with hd_digit [OF zfill_nonempty zfill_digits, of w "nat m"] show ?thesis by (simp add: dash_not_digit)
  qed
qed

lemma fmt_d_two_digits:
  assumes "0 \<le> n" "n < 100"
  shows "fmt_d 2 n = [digit_char (nat n div 10), digit_char (nat n mod 10)]"
proof (cases "nat n < 10")
  case True
  then have "dec (nat n) = [digit_char (nat n)]" by (simp add: dec.simps [of "nat n"])
  with True assms show ?thesis by (simp add: fmt_d_def zfill_def digit_char_0)
next
  case False
  moreover from assms have "nat n div 10 < 10" by linarith
  ultimately have "dec (nat n) = [digit_char (nat n div 10), digit_char (nat n mod 10)]"
    by (simp add: dec.simps [of "nat n"] dec.simps [of "nat n div 10"])
  with assms show ?thesis by (simp add: fmt_d_def zfill_def)
qed

lemma length_dec_ge: "10 ^ k \<le> n \<Longrightarrow> k < length (dec n)"
proof (induction k arbitrary: n)
  case 0
  then show ?case using dec_nonempty [of n] by (cases "dec n") simp_all
next
  case (Suc k)
  then have "10 ^ k \<le> n div 10" by simp
  then have "k < length (dec (n div 10))" by (rule Suc.IH)
  moreover have "\<not> n < 10"
  proof -
    have "(1::nat) \<le> 10 ^ k" by simp
    then have "(10::nat) \<le> 10 * 10 ^ k" by linarith
    moreover from Suc.prems have "10 * 10 ^ k \<le> n" by simp
    ultimately have "10 \<le> n" by (rule order_trans)
    then show ?thesis by simp
  qed
  ultimately show ?case by (simp add: dec.simps [of n])
qed

lemma fmt_d_wide:
  assumes "100 \<le> n"
  shows "fmt_d 2 n = dec (nat n)"
proof -
  from assms have "10 ^ 2 \<le> nat n" by simp
  then have "2 < length (dec (nat n))" by (rule length_dec_ge)
  with assms show ?thesis by (simp add: fmt_d_def zfill_def)
qed


section \<open>File names\<close>


text \<open>
  Claim C4. The path of a record is the output directory, a slash, the sequence number
  padded with zeros to two digits, a hyphen, the category tag and the extension
  \<^verbatim>\<open>.md\<close>. A sequence number below 100 gives exactly two digits (tens, units); a larger
  one is written in full. Sequence number 7 with tag \<^verbatim>\<open>layout\<close> gives \<^verbatim>\<open>07-layout.md\<close>.
\<close>

theorem filename_format:
  assumes "0 \<le> n"
  shows "filename n sc =
           base_dir @ ''/''
           @ (if n < 100 then [digit_char (nat n div 10), digit_char (nat n mod 10)]
              else dec (nat n))
           @ ''-'' @ sc @ ''.md''"
  using assms by (simp add: filename_def fmt_d_two_digits fmt_d_wide)

theorem filename_format_witness:
  "(0::int) \<le> 7 \<and> filename 7 ''layout'' = base_dir @ ''/07-layout.md''"
  using filename_format [of 7 "''layout''"] by (simp add: digit_char_def)

text \<open>
  Claim C6. Two records whose pairs of sequence number and category tag differ are written
  to different paths. This holds for every integer and every tag, because the number is
  followed by a hyphen and its digits contain none.
\<close>

theorem filename_injective:
  assumes "(n, sc) \<noteq> (m, sc')"
  shows "filename n sc \<noteq> filename m sc'"
proof
  assume "filename n sc = filename m sc'"
  then have "fmt_d 2 n @ CHR ''-'' # (sc @ ''.md'') = fmt_d 2 m @ CHR ''-'' # (sc' @ ''.md'')"
    by (simp add: filename_def)
  then have "n = m \<and> sc @ ''.md'' = sc' @ ''.md''" by (rule fmt_d_split)
  with assms show False by simp
qed

theorem filename_injective_witness:
  "((7::int), ''layout'') \<noteq> (7, ''plans'') \<and> filename 7 ''layout'' \<noteq> filename 7 ''plans''"
  using filename_injective [of 7 "''layout''" 7 "''plans''"] by simp

section \<open>The last section of a document\<close>

lemma render_ends: "suffix (next_section n) (render n t obj deps fls cmds sc ds ecs refs)"
  unfolding render_def suffix_def by (metis append.assoc)

lemma next_section_pointer: "n < 32 \<Longrightarrow> n \<noteq> - 1 \<Longrightarrow> next_section n = next_pointer (n + 1)"
  by (simp add: next_section_def next_num_def)

lemma next_section_complete: "32 \<le> n \<Longrightarrow> next_section n = all_complete"
  by (simp add: next_section_def next_num_def)

lemma next_section_minus_one: "next_section (- 1) = all_complete"
  by (simp add: next_section_def next_num_def)

lemma suffix_last_two:
  assumes "suffix (a @ [x, y]) zs" "suffix (b @ [x', y']) zs"
  shows "x = x'"
proof -
  from assms(1) obtain p where "zs = p @ a @ [x, y]" by (auto simp: suffix_def)
  moreover from assms(2) obtain q where "zs = q @ b @ [x', y']" by (auto simp: suffix_def)
  ultimately have "(p @ a) @ [x, y] = (q @ b) @ [x', y']" by simp
  then show ?thesis by simp
qed

lemma pointer_not_complete:
  assumes "suffix (next_pointer k) doc"
  shows "\<not> suffix all_complete doc"
proof
  assume c: "suffix all_complete doc"
  have 1: "next_pointer k = (''\<newline>## Next\<newline>\<newline>Proceed to: `prompts/'' @ fmt_d 2 k @ ''-*.md` (F'' @ fmt_d 3 k) @ [CHR '')'', CHR ''\<newline>'']"
    by (simp add: next_pointer_def)
  have 2: "all_complete = ''\<newline>## Next\<newline>\<newline>All features complete! Create manifest.jsonl and README.md'' @ [CHR ''.'', CHR ''\<newline>'']"
    by (simp add: all_complete_def)
  from assms c have "CHR '')'' = CHR ''.''"
    unfolding 1 2 by (rule suffix_last_two)
  then show False by simp
qed

section \<open>The loop\<close>

lemma loop_body_Inr:
  assumes "loop_body p w = Inr w'"
  obtains n sc doc where "num p = Some n" "scope p = Some sc" "generate_prompt p = Inr doc"
    "dirname (filename n sc) \<in> fs_dirs w" "filename n sc \<notin> fs_dirs w"
    "filename n sc \<notin> fs_refused w"
    "w' = w\<lparr>fs_files := (fs_files w)(filename n sc \<mapsto> doc), stdout := stdout w @ [created_line n]\<rparr>"
  using assms
  by (auto simp: loop_body_def open_write_def print_def split: option.splits sum.splits if_splits)

lemma loop_body_InrI:
  assumes "num p = Some n" "scope p = Some sc" "generate_prompt p = Inr doc"
    "dirname (filename n sc) \<in> fs_dirs w" "filename n sc \<notin> fs_dirs w"
    "filename n sc \<notin> fs_refused w"
  shows "loop_body p w =
    Inr (w\<lparr>fs_files := (fs_files w)(filename n sc \<mapsto> doc), stdout := stdout w @ [created_line n]\<rparr>)"
  using assms by (simp add: loop_body_def open_write_def print_def)








lemma main_loop_stdout:
  assumes "main_loop ps w = (None, w1)"
  shows "\<exists>ns. map num ps = map Some ns \<and> stdout w1 = stdout w @ map created_line ns"
  using assms
proof (induction ps arbitrary: w)
  case Nil
  then show ?case by simp
next
  case (Cons p ps)
  show ?case
  proof (cases "loop_body p w")
    case (Inl e)
    with Cons.prems show ?thesis by simp
  next
    case (Inr w')
    then obtain n where n: "num p = Some n" "stdout w' = stdout w @ [created_line n]"
      by (rule loop_body_Inr) simp
    from Inr Cons.prems have "main_loop ps w' = (None, w1)" by simp
    then obtain ns where "map num ps = map Some ns" "stdout w1 = stdout w' @ map created_line ns"
      using Cons.IH by blast
    with n have "map num (p # ps) = map Some (n # ns) \<and> stdout w1 = stdout w @ map created_line (n # ns)"
      by simp
    then show ?thesis by blast
  qed
qed


section \<open>Paths\<close>

lemma slash_not_digit: "\<not> is_digit CHR ''/''"
  by (simp add: is_digit_def)

lemma fmt_d_no_slash: "CHR ''/'' \<notin> set (fmt_d w n)"
  using zfill_digits [of w "nat n"] zfill_digits [of "w - 1" "nat (- n)"] slash_not_digit
  by (auto simp: fmt_d_def)

lemma dirname_append:
  assumes "CHR ''/'' \<notin> set name"
  shows "dirname (dir @ CHR ''/'' # name) = dir"
proof -
  have "dropWhile (\<lambda>c. c \<noteq> CHR ''/'') (rev name @ CHR ''/'' # rev dir) = CHR ''/'' # rev dir"
    using assms by (simp add: dropWhile_append)
  then show ?thesis by (simp add: dirname_def)
qed

lemma dirname_filename:
  assumes "CHR ''/'' \<notin> set sc"
  shows "dirname (filename n sc) = base_dir"
proof -
  have "CHR ''/'' \<notin> set (fmt_d 2 n @ ''-'' @ sc @ ''.md'')"
    using assms fmt_d_no_slash [of 2 n] by simp
  then have "dirname (base_dir @ CHR ''/'' # (fmt_d 2 n @ ''-'' @ sc @ ''.md'')) = base_dir"
    by (rule dirname_append)
  then show ?thesis by (simp add: filename_def)
qed

lemma filename_not_base_dir: "filename n sc \<noteq> base_dir"
  by (simp add: filename_def)

section \<open>Success and failure of an iteration\<close>

lemma generate_prompt_Inr:
  assumes "num p = Some n" "title p = Some t" "objective p = Some obj"
  shows "generate_prompt p =
    Inr (render n t obj (get_or (depends p) []) (get_or (files p) []) (get_or (commands p) [])
           (get_or (scope p) ''viewer'') (get_or (decisions p) []) (get_or (edge_cases p) [])
           (get_or (code_refs p) []))"
  using assms by (simp add: generate_prompt_def)



lemma main_loop_succeeds:
  assumes "\<forall>p \<in> set ps. \<exists>n sc. num p = Some n \<and> scope p = Some sc \<and> title p \<noteq> None
             \<and> objective p \<noteq> None \<and> dirname (filename n sc) \<in> fs_dirs w
             \<and> filename n sc \<notin> fs_dirs w \<and> filename n sc \<notin> fs_refused w"
  shows "\<exists>w1. main_loop ps w = (None, w1)"
  using assms
proof (induction ps arbitrary: w)
  case Nil
  then show ?case by simp
next
  case (Cons p ps)
  from Cons.prems obtain n sc t obj where f: "num p = Some n" "scope p = Some sc" "title p = Some t"
    "objective p = Some obj" "dirname (filename n sc) \<in> fs_dirs w" "filename n sc \<notin> fs_dirs w"
    "filename n sc \<notin> fs_refused w"
    by auto
  from f(1,3,4) obtain doc where "generate_prompt p = Inr doc" by (simp add: generate_prompt_def)
  with f have b: "loop_body p w = Inr (w\<lparr>fs_files := (fs_files w)(filename n sc \<mapsto> doc),
      stdout := stdout w @ [created_line n]\<rparr>)" (is "_ = Inr ?w'")
    by (simp add: loop_body_InrI)
  have "fs_dirs ?w' = fs_dirs w" "fs_refused ?w' = fs_refused w" by simp_all
  with Cons.prems have "\<exists>w1. main_loop ps ?w' = (None, w1)"
    by (intro Cons.IH) simp
  with b show ?case by simp
qed





section \<open>The statement after the loop\<close>

lemma script_None:
  assumes "main_loop ps w = (None, w1)"
  shows "script ps w = (None, print w1 (''\<newline>Total prompts created: '' @ dec (length ps)))"
  using assms by (simp add: script_def)


text \<open>The statement after the loop only prints: the script ends as the loop does, with
  the same files and directories.\<close>

lemma script_main_loop:
  "fst (script ps w) = fst (main_loop ps w)"
  "fs_files (snd (script ps w)) = fs_files (snd (main_loop ps w))"
  "fs_dirs (snd (script ps w)) = fs_dirs (snd (main_loop ps w))"
  "fs_refused (snd (script ps w)) = fs_refused (snd (main_loop ps w))"
  by (simp_all add: script_def print_def split: prod.splits option.splits)


section \<open>The small record set and the table\<close>

lemma task_fields:
  "num (task n tag) = Some n" "scope (task n tag) = Some tag" "title (task n tag) = Some ''Task''"
  "objective (task n tag) = Some ''Do it.''"
  by (simp_all add: task_def)

lemma task_generates:
  "generate_prompt (task n tag) = Inr (render n ''Task'' ''Do it.'' [] [] [] tag [] [] [])"
  by (simp add: generate_prompt_def task_def get_or_def)

lemma scenario_runs: "\<exists>w1. main_loop scenario fresh = (None, w1)"
  by (rule main_loop_succeeds)
     (simp add: scenario_def fresh_def task_fields dirname_filename filename_not_base_dir)

lemma prompts_nums:
  "map num prompts = map Some [10, 11, 12, 13, 14, 15, 16, 17, 18, 19, 20, 21, 22, 23, 24, 25, 26,
     27, 28, 29, 30, 31, 32]"
  by (simp add: prompts_def)

lemma prompts_in_range: "\<forall>q \<in> set prompts. \<exists>m. num q = Some m \<and> 0 < m \<and> m \<le> 32"
proof -
  have "\<forall>x \<in> set (map num prompts). \<exists>m. x = Some m \<and> 0 < m \<and> m \<le> 32"
    unfolding prompts_nums by simp
  then show ?thesis by simp
qed

lemma prompts_has: "k \<in> set [10, 11, 32] \<Longrightarrow> \<exists>q \<in> set prompts. num q = Some k"
proof -
  assume "k \<in> set [10, 11, 32]"
  then have "Some k \<in> set (map num prompts)" unfolding prompts_nums by auto
  then show ?thesis by (auto simp: image_iff)
qed

lemma prompts_scopes:
  "\<forall>p \<in> set prompts. \<exists>n sc. num p = Some n \<and> scope p = Some sc \<and> title p \<noteq> None
      \<and> objective p \<noteq> None \<and> CHR ''/'' \<notin> set sc"
  by (simp add: prompts_def)

lemma main_runs: "\<exists>w1. main_loop prompts fresh = (None, w1)"
proof (rule main_loop_succeeds, rule ballI)
  fix p assume "p \<in> set prompts"
  with prompts_scopes obtain n sc where "num p = Some n" "scope p = Some sc" "title p \<noteq> None"
    "objective p \<noteq> None" "CHR ''/'' \<notin> set sc" by blast
  then show "\<exists>n sc. num p = Some n \<and> scope p = Some sc \<and> title p \<noteq> None
             \<and> objective p \<noteq> None \<and> dirname (filename n sc) \<in> fs_dirs fresh
             \<and> filename n sc \<notin> fs_dirs fresh \<and> filename n sc \<notin> fs_refused fresh"
    by (simp add: fresh_def dirname_filename filename_not_base_dir)
qed

text \<open>Two entries of the table, written out.\<close>

lemma f016:
  "prompts ! 6 = \<lparr>num = Some 16, title = Some ''Build Active Orchestrations Component'',
      objective = Some ''Create active-orchestrations component with SSE integration for realtime updates.'',
      depends = Some [''F015'', ''F008''],
      files = Some [''src/components/plans/active-orchestrations.tsx''],
      commands = Some '''',
      scope = Some ''plans'',
      decisions = Some [''D001'', ''D007''],
      edge_cases = Some [''EC001'', ''EC002'', ''EC003''],
      code_refs = Some [''code/typescript.md#components'']\<rparr>"
  by (simp add: prompts_def)

lemma f010:
  "prompts ! 0 = \<lparr>num = Some 10, title = Some ''Install shadcn/ui Data Display Components'',
      objective = Some ''Install shadcn/ui components for data display: card, badge, progress, table, tabs.'',
      depends = Some [''F003''],
      files = Some [''src/components/ui/*''],
      commands = Some ''bun x shadcn@latest add card badge progress table tabs'',
      scope = Some ''shadcn-data'',
      decisions = None,
      edge_cases = None,
      code_refs = None\<rparr>"
  by (simp add: prompts_def)

section \<open>The cross-reference footer\<close>

text \<open>
  Claim C1, as stated, fails. The footer is not computed from the record set: a record
  below 32 always points to its successor. In the record set 1, 2, 3 the record with the
  largest sequence number, 3, does not end with the completion sentence.
\<close>

theorem footer_of_last_record_counterexample:
  "\<not> (\<forall>p \<in> set scenario. \<forall>n doc. num p = Some n \<longrightarrow> generate_prompt p = Inr doc \<longrightarrow>
        (\<forall>q \<in> set scenario. \<forall>m. num q = Some m \<longrightarrow> m \<le> n) \<longrightarrow> suffix all_complete doc)"
proof
  assume a: "\<forall>p \<in> set scenario. \<forall>n doc. num p = Some n \<longrightarrow> generate_prompt p = Inr doc \<longrightarrow>
        (\<forall>q \<in> set scenario. \<forall>m. num q = Some m \<longrightarrow> m \<le> n) \<longrightarrow> suffix all_complete doc"
  let ?doc = "render 3 ''Task'' ''Do it.'' [] [] [] ''c'' [] [] []"
  have "task 3 ''c'' \<in> set scenario" by (simp add: scenario_def)
  moreover have "\<forall>q \<in> set scenario. \<forall>m. num q = Some m \<longrightarrow> m \<le> 3"
    by (simp add: scenario_def task_fields)
  ultimately have "suffix all_complete ?doc"
    using a task_fields(1) [of 3 "''c''"] task_generates [of 3 "''c''"] by blast
  moreover have "suffix (next_pointer 4) ?doc"
    using render_ends [of 3] by (simp add: next_section_pointer)
  ultimately show False using pointer_not_complete by blast
qed

text \<open>
  Claim C1, amended. In a record set whose sequence numbers are positive and whose
  largest sequence number is 32 (such as the table of the script), a record whose successor
  is in the set ends with the pointer to \<^verbatim>\<open>prompts/NN-*.md\<close> for the successor's number,
  and the record with the largest sequence number ends with the completion sentence.
\<close>

theorem footer_next_or_complete:
  assumes "\<forall>q \<in> set ps. \<exists>m. num q = Some m \<and> 0 < m \<and> m \<le> 32"
    and "\<exists>q \<in> set ps. num q = Some 32"
    and "p \<in> set ps" "num p = Some n" "generate_prompt p = Inr doc"
  shows "((\<exists>q \<in> set ps. num q = Some (n + 1)) \<longrightarrow> suffix (next_pointer (n + 1)) doc)
       \<and> ((\<forall>q \<in> set ps. \<forall>m. num q = Some m \<longrightarrow> m \<le> n) \<longrightarrow> suffix all_complete doc)"
proof -
  from assms(4,5) obtain t obj deps fls cmds sc ds ecs refs
    where doc: "doc = render n t obj deps fls cmds sc ds ecs refs"
    by (auto simp: generate_prompt_def split: option.splits)
  have e: "suffix (next_section n) doc" unfolding doc by (rule render_ends)
  from assms(1,3,4) have pos: "0 < n" by auto
  have "suffix (next_pointer (n + 1)) doc" if "\<exists>q \<in> set ps. num q = Some (n + 1)"
  proof -
    from that assms(1) have "n + 1 \<le> 32" by auto
    with pos e show ?thesis by (simp add: next_section_pointer)
  qed
  moreover have "suffix all_complete doc" if "\<forall>q \<in> set ps. \<forall>m. num q = Some m \<longrightarrow> m \<le> n"
  proof -
    from that assms(2) have "32 \<le> n" by auto
    with e show ?thesis by (simp add: next_section_complete)
  qed
  ultimately show ?thesis by blast
qed

theorem footer_next_or_complete_witness:
  "(\<exists>q \<in> set prompts. num q = Some 32)
   \<and> (\<exists>doc. generate_prompt (hd prompts) = Inr doc \<and> suffix (next_pointer 11) doc)
   \<and> (\<exists>doc. generate_prompt (last prompts) = Inr doc \<and> suffix all_complete doc)"
proof -
  have h2: "\<exists>q \<in> set prompts. num q = Some 32" by (rule prompts_has) simp
  have n11: "\<exists>q \<in> set prompts. num q = Some (10 + 1)" using prompts_has [of 11] by simp
  have first: "hd prompts \<in> set prompts" "num (hd prompts) = Some 10"
    by (simp_all add: prompts_def)
  have final: "last prompts \<in> set prompts" "num (last prompts) = Some 32"
    by (simp_all add: prompts_def)
  obtain d1 where d1: "generate_prompt (hd prompts) = Inr d1"
    by (simp add: generate_prompt_def prompts_def)
  obtain d2 where d2: "generate_prompt (last prompts) = Inr d2"
    by (simp add: generate_prompt_def prompts_def)
  have top: "\<forall>q \<in> set prompts. \<forall>m. num q = Some m \<longrightarrow> m \<le> 32"
    using prompts_in_range by fastforce
  from footer_next_or_complete [OF prompts_in_range h2 first d1] n11
  have "suffix (next_pointer 11) d1" by simp
  moreover from footer_next_or_complete [OF prompts_in_range h2 final d2] top
  have "suffix all_complete d2" by simp
  ultimately show ?thesis using h2 d1 d2 by blast
qed



section \<open>Running the script\<close>


text \<open>
  Claim C8. A run that ends without an exception appends to the console exactly one entry
  per record, \<^verbatim>\<open>Created F\<close> followed by the sequence number padded to three digits, in
  the order of the records, and after them exactly one summary, \<^verbatim>\<open>Total prompts created:\<close>
  followed by the number of records (printed after an empty line).
\<close>

theorem console_lines:
  assumes "script ps w = (None, w1)"
  shows "\<exists>ns. map num ps = map Some ns
           \<and> stdout w1 = stdout w @ map (\<lambda>n. ''Created F'' @ fmt_d 3 n) ns
                 @ [''\<newline>Total prompts created: '' @ dec (length ps)]"
proof -
  from assms obtain w' where l: "main_loop ps w = (None, w')"
    by (auto simp: script_def split: prod.splits option.splits)
  with assms have "w1 = print w' (''\<newline>Total prompts created: '' @ dec (length ps))"
    by (simp add: script_None)
  with main_loop_stdout [OF l] show ?thesis
    by (auto simp: print_def created_line_def [abs_def])
qed

theorem console_lines_witness:
  "script scenario fresh = (None, snd (script scenario fresh))
   \<and> stdout (snd (script scenario fresh))
       = [''Created F001'', ''Created F002'', ''Created F003'', ''\<newline>Total prompts created: 3'']
   \<and> fst (main fresh) = None
   \<and> length (stdout (snd (main fresh))) = 24
   \<and> last (stdout (snd (main fresh))) = ''\<newline>Total prompts created: 23''"
proof -
  have e: "stdout fresh = []" by (simp add: fresh_def)
  obtain w' where "main_loop scenario fresh = (None, w')" using scenario_runs by blast
  then have "fst (script scenario fresh) = None" by (simp add: script_main_loop)
  then have r: "script scenario fresh = (None, snd (script scenario fresh))"
    by (cases "script scenario fresh") simp
  from console_lines [OF r] obtain ns where "map num scenario = map Some ns"
    "stdout (snd (script scenario fresh)) = stdout fresh @ map (\<lambda>n. ''Created F'' @ fmt_d 3 n) ns
       @ [''\<newline>Total prompts created: '' @ dec (length scenario)]" by blast
  moreover have "map num scenario = map Some [1, 2, 3]" by (simp add: scenario_def task_fields)
  ultimately have "ns = [1, 2, 3]"
    "stdout (snd (script scenario fresh)) = stdout fresh @ map (\<lambda>n. ''Created F'' @ fmt_d 3 n) ns
       @ [''\<newline>Total prompts created: '' @ dec (length scenario)]"
    using inj_map_eq_map [OF inj_Some] by (metis, simp)
  then have s: "stdout (snd (script scenario fresh))
       = [''Created F001'', ''Created F002'', ''Created F003'', ''\<newline>Total prompts created: 3'']"
    by (simp add: e scenario_def fmt_d_def zfill_def dec.simps digit_char_def numeral_2_eq_2)
  obtain v' where "main_loop prompts fresh = (None, v')" using main_runs by blast
  then have f: "fst (script prompts fresh) = None" by (simp add: script_main_loop)
  then have q: "script prompts fresh = (None, snd (script prompts fresh))"
    by (cases "script prompts fresh") simp
  from console_lines [OF q] obtain ms where ms: "map num prompts = map Some ms"
    "stdout (snd (script prompts fresh)) = stdout fresh @ map (\<lambda>n. ''Created F'' @ fmt_d 3 n) ms
       @ [''\<newline>Total prompts created: '' @ dec (length prompts)]" by blast
  from ms(1) have "length ms = length prompts" by (metis length_map)
  moreover have "length prompts = 23" by (simp add: prompts_def)
  moreover have "dec 23 = ''23''" by (simp add: dec.simps digit_char_def)
  ultimately have "length (stdout (snd (main fresh))) = 24"
    "last (stdout (snd (main fresh))) = ''\<newline>Total prompts created: 23''"
    using ms(2) by (simp_all add: main_def e)
  with r s f show ?thesis by (simp add: main_def)
qed









section \<open>The commit message\<close>




section \<open>The document line by line\<close>

lemma unlines_simps [simp]:
  "unlines [] = []"
  "unlines (l # ls) = l @ CHR ''\<newline>'' # unlines ls"
  "unlines (ks @ ls) = unlines ks @ unlines ls"
  by (simp_all add: unlines_def)

lemma lines_of_line:
  assumes "single_line l"
  shows "lines_of (l @ CHR ''\<newline>'' # rest) = l # lines_of rest"
  using assms by (induction l) (auto simp: single_line_def)

lemma lines_of_unlines:
  assumes "\<forall>l \<in> set ls. single_line l"
  shows "lines_of (unlines ls) = ls"
  using assms by (induction ls) (simp_all add: lines_of_line)

lemma join_newline:
  "join ''\<newline>'' xs @ CHR ''\<newline>'' # rest = unlines (if xs = [] then [[]] else xs) @ rest"
  by (induction "''\<newline>''" xs rule: join.induct) simp_all

lemma header_section_lines: "header_section n t deps obj = unlines (header_lines n t deps obj)"
  by (simp add: header_section_def header_lines_def join_newline)

lemma decisions_section_lines: "ds \<noteq> [] \<Longrightarrow> decisions_section ds = unlines (decisions_lines ds)"
  using join_newline [of "map decision_bullet ds" "[]"]
  by (simp add: decisions_section_def decisions_lines_def)

lemma edge_cases_section_lines:
  "ecs \<noteq> [] \<Longrightarrow> edge_cases_section ecs = unlines (edge_cases_lines ecs)"
  using join_newline [of "map edge_case_bullet ecs" "[]"]
  by (simp add: edge_cases_section_def edge_cases_lines_def)

lemma code_refs_section_lines:
  "refs \<noteq> [] \<Longrightarrow> code_refs_section refs = unlines (code_refs_lines refs)"
  using join_newline [of "map code_ref_bullet refs" "[]"]
  by (simp add: code_refs_section_def code_refs_lines_def)

lemma file_rows_lines:
  "concat (map file_row fls) = unlines (map (\<lambda>f. ''| `hooks/viewer/'' @ f @ ''` | See objective |'') fls)"
  by (induction fls) (simp_all add: file_row_def)

lemma middle_lines_eq:
  "constraints_section @ (if cmds \<noteq> [] then install_line cmds else []) @ files_section
     @ concat (map file_row fls)
     @ (if cmds \<noteq> [] then commands_section cmds else no_commands_section)
   = unlines (middle_lines fls cmds)"
  by (simp add: file_rows_lines constraints_section_def install_line_def files_section_def
        commands_section_def no_commands_section_def middle_lines_def)

lemma acceptance_section_lines: "acceptance_section = unlines acceptance_lines"
  by (simp add: acceptance_section_def acceptance_lines_def)

lemma commit_lines_eq:
  "commit_message sc t obj n @ (if ds \<noteq> [] then decisions_line ds else [])
     @ (if ecs \<noteq> [] then edge_cases_line ecs else [])
   = unlines (commit_lines sc t obj n ds ecs)"
  by (simp add: commit_message_def decisions_line_def edge_cases_line_def commit_lines_def)

lemma attribution_section_lines: "attribution_section = unlines attribution_lines"
  by (simp add: attribution_section_def attribution_lines_def)

lemma next_section_lines: "next_section n = unlines (next_lines n)"
  by (simp add: next_section_def next_lines_def next_pointer_def all_complete_def
        split: option.splits)

lemma render_lines:
  "render n t obj deps fls cmds sc ds ecs refs = unlines (doc_lines n t obj deps fls cmds sc ds ecs refs)"
proof -
  have "render n t obj deps fls cmds sc ds ecs refs =
      header_section n t deps obj
    @ (if ds \<noteq> [] then decisions_section ds else [])
    @ (if ecs \<noteq> [] then edge_cases_section ecs else [])
    @ (if refs \<noteq> [] then code_refs_section refs else [])
    @ (constraints_section @ (if cmds \<noteq> [] then install_line cmds else []) @ files_section
       @ concat (map file_row fls)
       @ (if cmds \<noteq> [] then commands_section cmds else no_commands_section))
    @ acceptance_section
    @ (commit_message sc t obj n @ (if ds \<noteq> [] then decisions_line ds else [])
       @ (if ecs \<noteq> [] then edge_cases_line ecs else []))
    @ attribution_section
    @ next_section n"
    by (simp only: render_def append_assoc)
  also have "\<dots> = unlines (doc_lines n t obj deps fls cmds sc ds ecs refs)"
    unfolding middle_lines_eq commit_lines_eq header_section_lines acceptance_section_lines
      attribution_section_lines next_section_lines doc_lines_def
    by (simp add: decisions_section_lines edge_cases_section_lines code_refs_section_lines)
  finally show ?thesis .
qed


subsection \<open>Lines without a newline\<close>

lemma single_line_simps [simp]:
  "single_line []"
  "single_line (c # s) \<longleftrightarrow> c \<noteq> CHR ''\<newline>'' \<and> single_line s"
  "single_line (s @ s') \<longleftrightarrow> single_line s \<and> single_line s'"
  by (auto simp: single_line_def)

lemma newline_not_digit: "\<not> is_digit CHR ''\<newline>''"
  by (simp add: is_digit_def)

lemma fmt_d_single [simp]: "single_line (fmt_d w n)"
  using zfill_digits [of w "nat n"] zfill_digits [of "w - 1" "nat (- n)"] newline_not_digit
  by (auto simp: fmt_d_def single_line_def)

lemma lower_char_newline: "lower_char c = CHR ''\<newline>'' \<Longrightarrow> c = CHR ''\<newline>''"
  by (simp add: lower_char_def split: if_splits)

lemma lower_single [simp]: "single_line t \<Longrightarrow> single_line (lower t)"
  by (induction t) (auto simp: lower_def dest: lower_char_newline)

lemma join_single:
  assumes "single_line sep" "\<forall>x \<in> set xs. single_line x"
  shows "single_line (join sep xs)"
  using assms by (induction sep xs rule: join.induct) simp_all

lemma doc_lines_single:
  assumes "single_line t" "single_line obj" "single_line cmds" "single_line sc"
    and "\<forall>x \<in> set deps. single_line x" "\<forall>x \<in> set fls. single_line x"
    and "\<forall>x \<in> set ds. single_line x" "\<forall>x \<in> set ecs. single_line x"
    and "\<forall>x \<in> set refs. single_line x"
  shows "\<forall>l \<in> set (doc_lines n t obj deps fls cmds sc ds ecs refs). single_line l"
proof -
  have "single_line (join '', '' ds)" "single_line (join '', '' ecs)"
    using assms by (simp_all add: join_single)
  with assms show ?thesis
    by (auto simp: doc_lines_def header_lines_def decisions_lines_def edge_cases_lines_def
          code_refs_lines_def middle_lines_def acceptance_lines_def commit_lines_def
          attribution_lines_def next_lines_def dep_bullet_def decision_bullet_def
          edge_case_bullet_def code_ref_bullet_def split: option.splits)
qed


subsection \<open>Headings of the conditional sections\<close>

lemma generate_prompt_lines:
  assumes "generate_prompt p = Inr doc" "\<forall>s \<in> set (texts p). single_line s"
  obtains n t obj where "num p = Some n" "title p = Some t" "objective p = Some obj"
    "lines_of doc = doc_lines n t obj (get_or (depends p) []) (get_or (files p) [])
       (get_or (commands p) []) (get_or (scope p) ''viewer'') (get_or (decisions p) [])
       (get_or (edge_cases p) []) (get_or (code_refs p) [])"
proof -
  from assms(1) obtain n t obj where f: "num p = Some n" "title p = Some t" "objective p = Some obj"
    by (auto simp: generate_prompt_def split: option.splits)
  let ?L = "doc_lines n t obj (get_or (depends p) []) (get_or (files p) [])
       (get_or (commands p) []) (get_or (scope p) ''viewer'') (get_or (decisions p) [])
       (get_or (edge_cases p) []) (get_or (code_refs p) [])"
  from f assms(1) have "doc = unlines ?L"
    by (simp add: generate_prompt_Inr render_lines)
  moreover from assms(2) f have "\<forall>l \<in> set ?L. single_line l"
    by (intro doc_lines_single) (simp_all add: texts_def get_or_def)
  ultimately have "lines_of doc = ?L" by (simp add: lines_of_unlines)
  with f show thesis by (rule that)
qed

lemma heading_lines:
  assumes "h \<in> {''## Relevant Decisions'', ''## Edge Cases to Handle'', ''## Code References''}"
    and "\<not> prefix ''## '' obj" "\<not> prefix ''## '' cmds"
  shows "h \<notin> set (header_lines n t deps obj)" "h \<notin> set (middle_lines fls cmds)"
    "h \<notin> set acceptance_lines" "h \<notin> set (commit_lines sc t obj n ds ecs)"
    "h \<notin> set attribution_lines" "h \<notin> set (next_lines n)"
proof -
  from assms have o: "h \<noteq> obj" "h \<noteq> cmds" by auto
  from assms(1) o show "h \<notin> set (header_lines n t deps obj)"
    by (auto simp: header_lines_def dep_bullet_def)
  from assms(1) o show "h \<notin> set (middle_lines fls cmds)"
    by (auto simp: middle_lines_def)
  from assms(1) show "h \<notin> set acceptance_lines"
    by (auto simp: acceptance_lines_def)
  from assms(1) o show "h \<notin> set (commit_lines sc t obj n ds ecs)"
    by (auto simp: commit_lines_def)
  from assms(1) show "h \<notin> set attribution_lines"
    by (auto simp: attribution_lines_def)
  from assms(1) show "h \<notin> set (next_lines n)"
    by (auto simp: next_lines_def split: option.splits)
qed

lemma section_heading_membership:
  "''## Relevant Decisions'' \<in> set (decisions_lines ds)"
  "''## Edge Cases to Handle'' \<notin> set (decisions_lines ds)"
  "''## Code References'' \<notin> set (decisions_lines ds)"
  "''## Relevant Decisions'' \<notin> set (edge_cases_lines ecs)"
  "''## Edge Cases to Handle'' \<in> set (edge_cases_lines ecs)"
  "''## Code References'' \<notin> set (edge_cases_lines ecs)"
  "''## Relevant Decisions'' \<notin> set (code_refs_lines refs)"
  "''## Edge Cases to Handle'' \<notin> set (code_refs_lines refs)"
  "''## Code References'' \<in> set (code_refs_lines refs)"
  by (auto simp: decisions_lines_def edge_cases_lines_def code_refs_lines_def
        decision_bullet_def edge_case_bullet_def code_ref_bullet_def)

lemma blank_line_follows:
  "\<exists>ss. middle_lines fls cmds @ xs = [] # ss"
  "\<exists>ss. (if refs \<noteq> [] then code_refs_lines refs else []) @ middle_lines fls cmds @ xs = [] # ss"
  "\<exists>ss. (if ecs \<noteq> [] then edge_cases_lines ecs else [])
      @ (if refs \<noteq> [] then code_refs_lines refs else []) @ middle_lines fls cmds @ xs = [] # ss"
  by (simp_all add: middle_lines_def code_refs_lines_def edge_cases_lines_def)

text \<open>
  The headings are looked for among the lines of the document, so a record whose objective
  is itself such a line shows it without having the section: the statement below asks
  that the objective and the commands do not begin with \<^verbatim>\<open>## \<close>.
\<close>

lemma heading_inside_objective:
  assumes "generate_prompt ((task 1 ''a'')\<lparr>objective := Some ''## Relevant Decisions''\<rparr>) = Inr doc"
  shows "''## Relevant Decisions'' \<in> set (lines_of doc)"
proof -
  have "\<forall>s \<in> set (texts ((task 1 ''a'')\<lparr>objective := Some ''## Relevant Decisions''\<rparr>)). single_line s"
    by (simp add: texts_def task_def get_or_def)
  with assms obtain n t obj where "objective ((task 1 ''a'')\<lparr>objective := Some ''## Relevant Decisions''\<rparr>) = Some obj"
    and "''## Relevant Decisions'' \<in> set (lines_of doc) \<longleftrightarrow>
      ''## Relevant Decisions'' \<in> set (doc_lines n t obj [] [] [] ''a'' [] [] [])"
    by (rule generate_prompt_lines) (simp add: task_def get_or_def)
  then show ?thesis by (simp add: doc_lines_def header_lines_def)
qed

text \<open>
  Claim C5. For a record whose strings are single lines and whose objective and commands
  do not begin with \<^verbatim>\<open>## \<close>: the heading of the decisions section is a line of the
  document if and only if the decision references are not empty, and likewise for the edge
  cases and the code references; and when a section is there, its heading is followed by
  an empty line, the introduction, exactly one bullet per reference in their order, and
  an empty line. In particular a record without decision references has no decisions
  section.
\<close>

theorem conditional_sections:
  assumes "generate_prompt p = Inr doc"
    and "\<forall>s \<in> set (texts p). single_line s"
    and "\<not> prefix ''## '' (get_or (objective p) [])"
    and "\<not> prefix ''## '' (get_or (commands p) [])"
    and "ds = get_or (decisions p) []" "ecs = get_or (edge_cases p) []"
    and "refs = get_or (code_refs p) []"
  shows "(''## Relevant Decisions'' \<in> set (lines_of doc) \<longleftrightarrow> ds \<noteq> [])
       \<and> (''## Edge Cases to Handle'' \<in> set (lines_of doc) \<longleftrightarrow> ecs \<noteq> [])
       \<and> (''## Code References'' \<in> set (lines_of doc) \<longleftrightarrow> refs \<noteq> [])
       \<and> (ds \<noteq> [] \<longrightarrow>
            sublist ([''## Relevant Decisions'', [], ''From `decisions.md`:'']
                     @ map (\<lambda>d. ''- **'' @ d @ ''**: See decisions.md for details'') ds @ [[]])
              (lines_of doc))
       \<and> (ecs \<noteq> [] \<longrightarrow>
            sublist ([''## Edge Cases to Handle'', [], ''From `edge-cases.md`:'']
                     @ map (\<lambda>e. ''- **'' @ e @ ''**: See edge-cases.md for handling details'') ecs
                     @ [[]])
              (lines_of doc))
       \<and> (refs \<noteq> [] \<longrightarrow>
            sublist ([''## Code References'', [], ''Read these sections before implementing:'']
                     @ map (\<lambda>r. ''- `'' @ r @ ''` - Implementation patterns'') refs @ [[]])
              (lines_of doc))"
proof -
  from assms(1,2) obtain n t obj where f: "objective p = Some obj"
    and L: "lines_of doc = doc_lines n t obj (get_or (depends p) []) (get_or (files p) [])
       (get_or (commands p) []) (get_or (scope p) ''viewer'') ds ecs refs"
    unfolding assms(5,6,7) by (rule generate_prompt_lines)
  let ?deps = "get_or (depends p) []" and ?fls = "get_or (files p) []"
  let ?cmds = "get_or (commands p) []" and ?sc = "get_or (scope p) ''viewer''"
  from f assms(3) have o: "\<not> prefix ''## '' obj" by (simp add: get_or_def)
  note hl = heading_lines [OF _ o assms(4)]
  have mem: "h \<in> set (lines_of doc) \<longleftrightarrow>
      (ds \<noteq> [] \<and> h \<in> set (decisions_lines ds)) \<or> (ecs \<noteq> [] \<and> h \<in> set (edge_cases_lines ecs))
      \<or> (refs \<noteq> [] \<and> h \<in> set (code_refs_lines refs))"
    if "h \<in> {''## Relevant Decisions'', ''## Edge Cases to Handle'', ''## Code References''}" for h
    using hl [OF that] unfolding L doc_lines_def by auto
  have 1: "''## Relevant Decisions'' \<in> set (lines_of doc) \<longleftrightarrow> ds \<noteq> []"
    by (subst mem) (simp_all add: section_heading_membership)
  have 2: "''## Edge Cases to Handle'' \<in> set (lines_of doc) \<longleftrightarrow> ecs \<noteq> []"
    by (subst mem) (simp_all add: section_heading_membership)
  have 3: "''## Code References'' \<in> set (lines_of doc) \<longleftrightarrow> refs \<noteq> []"
    by (subst mem) (simp_all add: section_heading_membership)
  let ?tail = "acceptance_lines @ commit_lines ?sc t obj n ds ecs @ attribution_lines @ next_lines n"
  have 4: "sublist ([''## Relevant Decisions'', [], ''From `decisions.md`:'']
                     @ map (\<lambda>d. ''- **'' @ d @ ''**: See decisions.md for details'') ds @ [[]])
              (lines_of doc)" if "ds \<noteq> []"
  proof -
    obtain ss where "(if ecs \<noteq> [] then edge_cases_lines ecs else [])
      @ (if refs \<noteq> [] then code_refs_lines refs else []) @ middle_lines ?fls ?cmds @ ?tail = [] # ss"
      using blank_line_follows(3) by blast
    with that have "lines_of doc = (header_lines n t ?deps obj @ [[]])
        @ ([''## Relevant Decisions'', [], ''From `decisions.md`:'']
           @ map (\<lambda>d. ''- **'' @ d @ ''**: See decisions.md for details'') ds @ [[]]) @ ss"
      unfolding L doc_lines_def by (simp add: decisions_lines_def decision_bullet_def [abs_def])
    then show ?thesis by (simp only: sublist_appendI)
  qed
  have 5: "sublist ([''## Edge Cases to Handle'', [], ''From `edge-cases.md`:'']
                     @ map (\<lambda>e. ''- **'' @ e @ ''**: See edge-cases.md for handling details'') ecs
                     @ [[]])
              (lines_of doc)" if "ecs \<noteq> []"
  proof -
    obtain ss where "(if refs \<noteq> [] then code_refs_lines refs else []) @ middle_lines ?fls ?cmds @ ?tail
        = [] # ss"
      using blank_line_follows(2) by blast
    with that have "lines_of doc =
        (header_lines n t ?deps obj @ (if ds \<noteq> [] then decisions_lines ds else []) @ [[]])
        @ ([''## Edge Cases to Handle'', [], ''From `edge-cases.md`:'']
           @ map (\<lambda>e. ''- **'' @ e @ ''**: See edge-cases.md for handling details'') ecs @ [[]])
        @ ss"
      unfolding L doc_lines_def by (simp add: edge_cases_lines_def edge_case_bullet_def [abs_def])
    then show ?thesis by (simp only: sublist_appendI)
  qed
  have 6: "sublist ([''## Code References'', [], ''Read these sections before implementing:'']
                     @ map (\<lambda>r. ''- `'' @ r @ ''` - Implementation patterns'') refs @ [[]])
              (lines_of doc)" if "refs \<noteq> []"
  proof -
    obtain ss where "middle_lines ?fls ?cmds @ ?tail = [] # ss"
      using blank_line_follows(1) by blast
    with that have "lines_of doc =
        (header_lines n t ?deps obj @ (if ds \<noteq> [] then decisions_lines ds else [])
           @ (if ecs \<noteq> [] then edge_cases_lines ecs else []) @ [[]])
        @ ([''## Code References'', [], ''Read these sections before implementing:'']
           @ map (\<lambda>r. ''- `'' @ r @ ''` - Implementation patterns'') refs @ [[]])
        @ ss"
      unfolding L doc_lines_def by (simp add: code_refs_lines_def code_ref_bullet_def [abs_def])
    then show ?thesis by (simp only: sublist_appendI)
  qed
  from 1 2 3 4 5 6 show ?thesis by blast
qed

theorem conditional_sections_witness:
  "(\<exists>doc. generate_prompt (prompts ! 6) = Inr doc
      \<and> ''## Relevant Decisions'' \<in> set (lines_of doc)
      \<and> sublist [''## Relevant Decisions'', [], ''From `decisions.md`:'',
                  ''- **D001**: See decisions.md for details'',
                  ''- **D007**: See decisions.md for details'', []] (lines_of doc))
   \<and> (\<exists>doc. generate_prompt (prompts ! 0) = Inr doc
      \<and> ''## Relevant Decisions'' \<notin> set (lines_of doc)
      \<and> ''## Edge Cases to Handle'' \<notin> set (lines_of doc)
      \<and> ''## Code References'' \<notin> set (lines_of doc))"
proof -
  obtain d16 where d16: "generate_prompt (prompts ! 6) = Inr d16"
    unfolding f016 by (simp add: generate_prompt_def)
  obtain d10 where d10: "generate_prompt (prompts ! 0) = Inr d10"
    unfolding f010 by (simp add: generate_prompt_def)
  have s16: "\<forall>s \<in> set (texts (prompts ! 6)). single_line s"
    unfolding f016 by (simp add: texts_def get_or_def)
  have s10: "\<forall>s \<in> set (texts (prompts ! 0)). single_line s"
    unfolding f010 by (simp add: texts_def get_or_def)
  have o16: "\<not> prefix ''## '' (get_or (objective (prompts ! 6)) [])"
    "\<not> prefix ''## '' (get_or (commands (prompts ! 6)) [])"
    unfolding f016 by (simp_all add: get_or_def)
  have o10: "\<not> prefix ''## '' (get_or (objective (prompts ! 0)) [])"
    "\<not> prefix ''## '' (get_or (commands (prompts ! 0)) [])"
    unfolding f010 by (simp_all add: get_or_def)
  from conditional_sections [OF d16 s16 o16 refl refl refl]
  have "''## Relevant Decisions'' \<in> set (lines_of d16)
      \<and> sublist [''## Relevant Decisions'', [], ''From `decisions.md`:'',
                  ''- **D001**: See decisions.md for details'',
                  ''- **D007**: See decisions.md for details'', []] (lines_of d16)"
    unfolding f016 by (simp add: get_or_def)
  moreover from conditional_sections [OF d10 s10 o10 refl refl refl]
  have "''## Relevant Decisions'' \<notin> set (lines_of d10)
      \<and> ''## Edge Cases to Handle'' \<notin> set (lines_of d10)
      \<and> ''## Code References'' \<notin> set (lines_of d10)"
    unfolding f010 by (simp add: get_or_def)
  ultimately show ?thesis using d16 d10 by blast
qed


end
